theory Spec2Isabelle
  imports Complex_Main "HOL-Library.Multiset"
begin

section \<open>Python values used by \<open>scripts/fetch_monkeytype.py\<close>\<close>

text \<open>
  The script is Python 3. Its values are modelled as follows.
  \<^item> \<open>str\<close> is a sequence of Unicode code points (\<open>len\<close> counts code points), so a
    string is a list of natural numbers; \<open>ustr\<close> turns an ASCII literal into one.
  \<^item> \<open>int\<close> is unbounded: \<open>int\<close>.
  \<^item> \<open>float\<close> is IEEE 754 binary64: a finite value carries the rational it denotes,
    and the negative zero, the two infinities and NaN are values of their own. Every
    operation rounds to nearest, ties to even (\<open>fl64\<close>).
  \<^item> An exception is a value of \<open>exn\<close>; an operation that can raise returns
    \<open>exn + 'a\<close>, and a \<open>try ... except Exception\<close> is a case distinction on \<open>Inl\<close>.
\<close>

datatype exn = TypeError | ValueError | OverflowError | ZeroDivisionError | KeyError
  | RequestException | JSONDecodeError

type_synonym pystr = "nat list"

definition ustr :: "string \<Rightarrow> pystr" where
  "ustr s = map of_char s"

subsection \<open>binary64\<close>

datatype pyfloat = Num rat | NegZero | PosInf | NegInf | NaN

text \<open>The value of a finite float; \<open>-0.0\<close> and \<open>0.0\<close> are both zero.\<close>

fun fval :: "pyfloat \<Rightarrow> rat" where
  "fval (Num x) = x"
| "fval _ = 0"

fun is_finite :: "pyfloat \<Rightarrow> bool" where
  "is_finite (Num x) = True"
| "is_finite NegZero = True"
| "is_finite _ = False"

definition pow2 :: "int \<Rightarrow> rat" where
  "pow2 k = (if 0 \<le> k then 2 ^ nat k else 1 / 2 ^ nat (- k))"

definition pow10 :: "int \<Rightarrow> rat" where
  "pow10 k = (if 0 \<le> k then 10 ^ nat k else 1 / 10 ^ nat (- k))"

text \<open>The number of binary (decimal) digits of a positive integer, 0 otherwise.\<close>

function bitlen :: "int \<Rightarrow> int" where
  "bitlen n = (if n \<le> 0 then 0 else bitlen (n div 2) + 1)"
  by pat_completeness auto
termination
  by (relation "measure nat") auto

declare bitlen.simps [simp del]

function declen :: "int \<Rightarrow> int" where
  "declen n = (if n \<le> 0 then 0 else declen (n div 10) + 1)"
  by pat_completeness auto
termination
  by (relation "measure nat") auto

declare declen.simps [simp del]

text \<open>\<open>ilog2 a\<close> is \<open>\<lfloor>log\<^sub>2 a\<rfloor>\<close> and \<open>ilog10 a\<close> is \<open>\<lfloor>log\<^sub>1\<^sub>0 a\<rfloor>\<close>, for \<open>a > 0\<close>.\<close>

definition ilog2 :: "rat \<Rightarrow> int" where
  "ilog2 a = (if 1 \<le> a then bitlen \<lfloor>a\<rfloor> - 1 else - bitlen (\<lceil>1 / a\<rceil> - 1))"

definition ilog10 :: "rat \<Rightarrow> int" where
  "ilog10 a = (if 1 \<le> a then declen \<lfloor>a\<rfloor> - 1 else - declen (\<lceil>1 / a\<rceil> - 1))"

text \<open>Rounding to the nearest integer, a tie to the even one.\<close>

definition half_even :: "int \<Rightarrow> rat \<Rightarrow> int" where
  "half_even f d = (if d < 1 / 2 then f else if 1 / 2 < d then f + 1
                    else if even f then f else f + 1)"

definition round_half_even :: "rat \<Rightarrow> int" where
  "round_half_even x = half_even \<lfloor>x\<rfloor> (x - of_int \<lfloor>x\<rfloor>)"

text \<open>
  \<open>fl64 x\<close> is the binary64 value nearest to the rational \<open>x\<close>. With \<open>e\<close> the binary
  exponent of \<open>\<bar>x\<bar>\<close> (at least \<open>-1022\<close>: below it the values are subnormal), the
  representable values around \<open>\<bar>x\<bar>\<close> are the multiples of \<open>2\<^sup>e\<^sup>-\<^sup>5\<^sup>2\<close>; \<open>n\<close> is the nearest
  multiple. The result overflows to an infinity when it reaches \<open>2\<^sup>1\<^sup>0\<^sup>2\<^sup>4\<close> and keeps the
  sign when it underflows to zero.
\<close>

definition fl64_pack :: "bool \<Rightarrow> int \<Rightarrow> int \<Rightarrow> pyfloat" where
  "fl64_pack neg e n =
     (if 1024 \<le> e \<or> (e = 1023 \<and> 2 ^ 53 \<le> n) then (if neg then NegInf else PosInf)
      else if n = 0 then (if neg then NegZero else Num 0)
      else Num ((if neg then - 1 else 1) * of_int n * pow2 (e - 52)))"

definition fl64_scale :: "bool \<Rightarrow> rat \<Rightarrow> int \<Rightarrow> pyfloat" where
  "fl64_scale neg a e = fl64_pack neg e (round_half_even (a / pow2 (e - 52)))"

definition fl64 :: "rat \<Rightarrow> pyfloat" where
  "fl64 x = (if x = 0 then Num 0
             else fl64_scale (x < 0) \<bar>x\<bar> (max (ilog2 \<bar>x\<bar>) (- 1022)))"

text \<open>\<open>float(n)\<close> for an int: \<open>OverflowError\<close> when the rounded value is out of range.\<close>

definition float_of_int :: "int \<Rightarrow> exn + pyfloat" where
  "float_of_int n = (case fl64 (of_int n) of
       PosInf \<Rightarrow> Inl OverflowError
     | NegInf \<Rightarrow> Inl OverflowError
     | f \<Rightarrow> Inr f)"

text \<open>
  \<open>a / b\<close> on two ints (\<open>long_true_divide\<close>): the exact quotient, rounded once;
  \<open>ZeroDivisionError\<close> for \<open>b = 0\<close>, \<open>OverflowError\<close> when the quotient is out of range.
  A zero numerator gives \<open>-0.0\<close> for a negative divisor.
\<close>

definition int_truediv :: "int \<Rightarrow> int \<Rightarrow> exn + pyfloat" where
  "int_truediv a b =
     (if b = 0 then Inl ZeroDivisionError
      else if a = 0 then Inr (if b < 0 then NegZero else Num 0)
      else (case fl64 (of_int a / of_int b) of
              PosInf \<Rightarrow> Inl OverflowError
            | NegInf \<Rightarrow> Inl OverflowError
            | f \<Rightarrow> Inr f))"

text \<open>Float addition: silent infinities and NaN, and the IEEE sign of a zero sum.\<close>

fun fadd :: "pyfloat \<Rightarrow> pyfloat \<Rightarrow> pyfloat" where
  "fadd NaN _ = NaN"
| "fadd _ NaN = NaN"
| "fadd PosInf NegInf = NaN"
| "fadd NegInf PosInf = NaN"
| "fadd PosInf _ = PosInf"
| "fadd _ PosInf = PosInf"
| "fadd NegInf _ = NegInf"
| "fadd _ NegInf = NegInf"
| "fadd NegZero y = y"
| "fadd (Num x) NegZero = Num x"
| "fadd (Num x) (Num y) = fl64 (x + y)"

text \<open>
  \<open>x / n\<close> for a float and an int: the int is converted first (\<open>OverflowError\<close>), a
  zero divisor raises \<open>ZeroDivisionError\<close>, and the quotient is rounded once.
\<close>

fun fdiv_finite :: "pyfloat \<Rightarrow> rat \<Rightarrow> pyfloat" where
  "fdiv_finite NaN b = NaN"
| "fdiv_finite PosInf b = (if 0 < b then PosInf else NegInf)"
| "fdiv_finite NegInf b = (if 0 < b then NegInf else PosInf)"
| "fdiv_finite NegZero b = (if 0 < b then NegZero else Num 0)"
| "fdiv_finite (Num x) b =
     (if x = 0 then (if 0 < b then Num 0 else NegZero) else fl64 (x / b))"

definition float_truediv_int :: "pyfloat \<Rightarrow> int \<Rightarrow> exn + pyfloat" where
  "float_truediv_int x n = (case float_of_int n of
       Inl e \<Rightarrow> Inl e
     | Inr d \<Rightarrow> if fval d = 0 then Inl ZeroDivisionError else Inr (fdiv_finite x (fval d)))"

text \<open>\<open>n + x\<close> for an int and a float: the int is converted first.\<close>

definition int_add_float :: "int \<Rightarrow> pyfloat \<Rightarrow> exn + pyfloat" where
  "int_add_float n x = (case float_of_int n of Inl e \<Rightarrow> Inl e | Inr f \<Rightarrow> Inr (fadd f x))"

text \<open>The comparison \<open>a > b\<close> of two floats: false when either is NaN.\<close>

fun fgt :: "pyfloat \<Rightarrow> pyfloat \<Rightarrow> bool" where
  "fgt NaN _ = False"
| "fgt _ NaN = False"
| "fgt PosInf b = (b \<noteq> PosInf)"
| "fgt _ PosInf = False"
| "fgt NegInf _ = False"
| "fgt _ NegInf = True"
| "fgt a b = (fval b < fval a)"

text \<open>
  \<open>round(x)\<close> with one argument returns an int: \<open>ValueError\<close> for NaN and
  \<open>OverflowError\<close> for an infinity.
\<close>

fun py_round :: "pyfloat \<Rightarrow> exn + int" where
  "py_round NaN = Inl ValueError"
| "py_round PosInf = Inl OverflowError"
| "py_round NegInf = Inl OverflowError"
| "py_round x = Inr (round_half_even (fval x))"

text \<open>
  \<open>round(x, 1)\<close> returns a float: the exact value of \<open>x\<close> rounded to one decimal
  (ties to even), then the nearest float; a negative \<open>x\<close> that rounds to zero gives
  \<open>-0.0\<close>, and zeros, infinities and NaN are returned as they are.
\<close>

fun py_round1 :: "pyfloat \<Rightarrow> pyfloat" where
  "py_round1 (Num x) =
     (if x = 0 then Num 0
      else if round_half_even (\<bar>x\<bar> * 10) = 0 then (if x < 0 then NegZero else Num 0)
      else fl64 ((if x < 0 then - 1 else 1) * of_int (round_half_even (\<bar>x\<bar> * 10)) / 10))"
| "py_round1 x = x"

subsection \<open>\<open>str\<close> of an int and of a float\<close>

function dec_digits :: "int \<Rightarrow> pystr" where
  "dec_digits n = (if n < 10 then [nat (48 + n)]
                   else dec_digits (n div 10) @ [nat (48 + n mod 10)])"
  by pat_completeness auto
termination
  by (relation "measure nat") auto

declare dec_digits.simps [simp del]

definition py_str_int :: "int \<Rightarrow> pystr" where
  "py_str_int n = (if n < 0 then 45 # dec_digits (- n) else dec_digits n)"

text \<open>
  \<open>repr\<close> of a float prints the shortest decimal that reads back as the same float
  (the one nearest to it when there are two, the one with the even last digit when
  both are equally near). For \<open>d = 1, 2, ...\<close> digits the two
  candidates are the \<open>d\<close>-digit decimals just below and just above the value; 17
  digits always suffice. The search returns the digits as an integer and the power of
  ten it is scaled by.
\<close>

definition repr_ok :: "rat \<Rightarrow> int \<Rightarrow> int \<Rightarrow> bool" where
  "repr_ok a s n = (fl64 (of_int n * pow10 s) = Num a)"

definition repr_pick :: "rat \<Rightarrow> int \<Rightarrow> int \<Rightarrow> int" where
  "repr_pick a s lo =
     (if repr_ok a s lo \<and> repr_ok a s (lo + 1)
      then (if a - of_int lo * pow10 s < of_int (lo + 1) * pow10 s - a then lo
            else if of_int (lo + 1) * pow10 s - a < a - of_int lo * pow10 s then lo + 1
            else if even lo then lo else lo + 1)
      else if repr_ok a s lo then lo
      else if repr_ok a s (lo + 1) then lo + 1
      else round_half_even (a / pow10 s))"

function repr_search :: "rat \<Rightarrow> int \<Rightarrow> nat \<Rightarrow> int \<times> int" where
  "repr_search a k d =
     (if 17 \<le> d \<or> repr_ok a (k - int d + 1) \<lfloor>a / pow10 (k - int d + 1)\<rfloor>
         \<or> repr_ok a (k - int d + 1) (\<lfloor>a / pow10 (k - int d + 1)\<rfloor> + 1)
      then (repr_pick a (k - int d + 1) \<lfloor>a / pow10 (k - int d + 1)\<rfloor>, k - int d + 1)
      else repr_search a k (Suc d))"
  by pat_completeness auto
termination
  by (relation "measure (\<lambda>(a, k, d). 17 - d)") auto

declare repr_search.simps [simp del]

function strip_zeros :: "int \<Rightarrow> int" where
  "strip_zeros n = (if n \<noteq> 0 \<and> n mod 10 = 0 then strip_zeros (n div 10) else n)"
  by pat_completeness auto
termination
  by (relation "measure (\<lambda>n. nat \<bar>n\<bar>)") auto

declare strip_zeros.simps [simp del]

text \<open>
  The digits and the position of the decimal point are laid out as
  \<open>format_float_short\<close> does for \<open>repr\<close>: exponent notation when the point is at
  \<open>-4\<close> or before, or after 16; otherwise positional, with \<open>.0\<close> added to an integer.
\<close>

definition exp_digits :: "int \<Rightarrow> pystr" where
  "exp_digits e = (if e < 0 then [45] else [43]) @
     (if \<bar>e\<bar> < 10 then [48] else []) @ dec_digits \<bar>e\<bar>"

definition layout :: "pystr \<Rightarrow> int \<Rightarrow> pystr" where
  "layout ds decpt =
     (if decpt \<le> - 4 \<or> 16 < decpt
      then take 1 ds @ (if 1 < length ds then 46 # drop 1 ds else []) @ [101] @ exp_digits (decpt - 1)
      else if decpt \<le> 0 then [48, 46] @ replicate (nat (- decpt)) 48 @ ds
      else if nat decpt < length ds then take (nat decpt) ds @ [46] @ drop (nat decpt) ds
      else ds @ replicate (nat decpt - length ds) 48 @ [46, 48])"

definition repr_pos :: "rat \<Rightarrow> pystr" where
  "repr_pos a = (case repr_search a (ilog10 a) 1 of
     (n, s) \<Rightarrow> layout (dec_digits (strip_zeros n)) (declen n + s))"

fun py_repr_float :: "pyfloat \<Rightarrow> pystr" where
  "py_repr_float NaN = ustr ''nan''"
| "py_repr_float PosInf = ustr ''inf''"
| "py_repr_float NegInf = ustr ''-inf''"
| "py_repr_float NegZero = ustr ''-0.0''"
| "py_repr_float (Num x) =
     (if x = 0 then ustr ''0.0''
      else if x < 0 then 45 # repr_pos (- x)
      else repr_pos x)"

subsection \<open>\<open>float\<close> of a string\<close>

text \<open>
  \<open>float(s)\<close> for a string, as \<open>PyFloat_FromString\<close> does it: code points beyond
  ASCII are first mapped to ASCII (a Unicode space to a blank, a Unicode decimal digit
  to its ASCII digit, anything else to \<open>?\<close>); an underscore is dropped when it stands
  between two digits and is an error elsewhere; ASCII white space is stripped at both
  ends; what remains is a signed \<open>inf\<close>, \<open>infinity\<close> or \<open>nan\<close> in any case, or a
  decimal number with an optional fraction and exponent. The number is rounded once;
  out of range it is an infinity. Anything else raises \<open>ValueError\<close>.
  The two tables are those of Unicode 14.
\<close>

definition uni_space :: "nat \<Rightarrow> bool" where
  "uni_space c = (c \<in> set [133, 160, 5760, 8192, 8193, 8194, 8195, 8196, 8197, 8198, 8199,
     8200, 8201, 8202, 8232, 8233, 8239, 8287, 12288])"

definition decimal_zeros :: "nat list" where
  "decimal_zeros = [1632, 1776, 1984, 2406, 2534, 2662, 2790, 2918, 3046, 3174, 3302,
     3430, 3558, 3664, 3792, 3872, 4160, 4240, 6112, 6160, 6470, 6608, 6784, 6800, 6992,
     7088, 7232, 7248, 42528, 43216, 43264, 43472, 43504, 43600, 44016, 65296, 66720,
     68912, 69734, 69872, 69942, 70096, 70384, 70736, 70864, 71248, 71360, 71472, 71904,
     72016, 72784, 73040, 73120, 92768, 92864, 93008, 120782, 120792, 120802, 120812,
     120822, 123200, 123632, 125264, 130032]"

definition to_ascii :: "nat \<Rightarrow> nat" where
  "to_ascii c =
     (if c < 128 then c
      else if uni_space c then 32
      else (case filter (\<lambda>z. z \<le> c \<and> c < z + 10) decimal_zeros of
              [] \<Rightarrow> 63
            | z # _ \<Rightarrow> 48 + (c - z)))"

definition is_digit :: "nat \<Rightarrow> bool" where
  "is_digit c = (48 \<le> c \<and> c \<le> 57)"

definition is_space :: "nat \<Rightarrow> bool" where
  "is_space c = (c = 32 \<or> (9 \<le> c \<and> c \<le> 13))"

fun drop_underscores :: "nat \<Rightarrow> pystr \<Rightarrow> pystr option" where
  "drop_underscores prev [] = (if prev = 95 then None else Some [])"
| "drop_underscores prev (c # cs) =
     (if c = 95 then (if is_digit prev then drop_underscores c cs else None)
      else if prev = 95 \<and> \<not> is_digit c then None
      else map_option (Cons c) (drop_underscores c cs))"

definition strip :: "pystr \<Rightarrow> pystr" where
  "strip s = rev (dropWhile is_space (rev (dropWhile is_space s)))"

definition lower :: "nat \<Rightarrow> nat" where
  "lower c = (if 65 \<le> c \<and> c \<le> 90 then c + 32 else c)"

definition digits_val :: "pystr \<Rightarrow> int" where
  "digits_val ds = foldl (\<lambda>a c. 10 * a + (int c - 48)) 0 ds"

text \<open>The sign of a literal, and the literal without it.\<close>

fun sign_of :: "pystr \<Rightarrow> bool \<times> pystr" where
  "sign_of [] = (False, [])"
| "sign_of (c # cs) = (if c = 45 then (True, cs) else if c = 43 then (False, cs) else (False, c # cs))"

text \<open>The exponent part: nothing, or \<open>e\<close>, an optional sign and at least one digit.\<close>

definition parse_exponent :: "pystr \<Rightarrow> int option" where
  "parse_exponent s =
     (case s of
        [] \<Rightarrow> Some 0
      | c # cs \<Rightarrow>
         (if lower c = 101 then
            (case sign_of cs of (neg, ds) \<Rightarrow>
               if ds \<noteq> [] \<and> list_all is_digit ds
               then Some ((if neg then - 1 else 1) * digits_val ds) else None)
          else None))"

definition parse_number :: "bool \<Rightarrow> pystr \<Rightarrow> exn + pyfloat" where
  "parse_number neg s =
     (case (takeWhile is_digit s, dropWhile is_digit s) of (ip, r) \<Rightarrow>
      (case (if r \<noteq> [] \<and> hd r = 46
             then (takeWhile is_digit (tl r), dropWhile is_digit (tl r)) else ([], r)) of (fp, r') \<Rightarrow>
       (if ip = [] \<and> fp = [] then Inl ValueError
        else (case parse_exponent r' of
                None \<Rightarrow> Inl ValueError
              | Some ex \<Rightarrow>
                 (if digits_val (ip @ fp) = 0 then Inr (if neg then NegZero else Num 0)
                  else Inr (fl64 ((if neg then - 1 else 1) * of_int (digits_val (ip @ fp))
                                   * pow10 (ex - int (length fp)))))))))"

definition float_of_str :: "pystr \<Rightarrow> exn + pyfloat" where
  "float_of_str s =
     (case drop_underscores 0 (map to_ascii s) of
        None \<Rightarrow> Inl ValueError
      | Some u \<Rightarrow>
         (case sign_of (strip u) of (neg, body) \<Rightarrow>
            if map lower body = ustr ''inf'' \<or> map lower body = ustr ''infinity''
            then Inr (if neg then NegInf else PosInf)
            else if map lower body = ustr ''nan'' then Inr NaN
            else parse_number neg body))"

subsection \<open>Decoded JSON and the numeric built-ins\<close>

text \<open>
  What \<open>res.json()\<close> returns: \<open>None\<close>, a bool, an int, a float (the decoder also
  accepts \<open>NaN\<close> and the infinities), a string, a list, or a dict with string keys,
  held as its list of items (the keys of a dict are distinct).
\<close>

datatype pyval = PNone | PBool bool | PInt int | PFloat pyfloat | PStr pystr
  | PList "pyval list" | PDict "(pystr \<times> pyval) list"

text \<open>\<open>float(v)\<close>: a bool is an int; \<open>None\<close>, a list and a dict raise \<open>TypeError\<close>.\<close>

fun py_float :: "pyval \<Rightarrow> exn + pyfloat" where
  "py_float PNone = Inl TypeError"
| "py_float (PBool b) = float_of_int (if b then 1 else 0)"
| "py_float (PInt n) = float_of_int n"
| "py_float (PFloat f) = Inr f"
| "py_float (PStr s) = float_of_str s"
| "py_float (PList xs) = Inl TypeError"
| "py_float (PDict kvs) = Inl TypeError"

text \<open>\<open>k in d\<close> and \<open>d.get(k, default)\<close> for a dict.\<close>

definition dict_contains :: "(pystr \<times> pyval) list \<Rightarrow> pystr \<Rightarrow> bool" where
  "dict_contains kvs k = (k \<in> set (map fst kvs))"

definition dict_get :: "(pystr \<times> pyval) list \<Rightarrow> pystr \<Rightarrow> pyval \<Rightarrow> pyval" where
  "dict_get kvs k d = (case map_of kvs k of None \<Rightarrow> d | Some v \<Rightarrow> v)"

text \<open>
  \<open>max(xs)\<close> keeps the first item and replaces it by each later item that compares
  greater; it raises \<open>ValueError\<close> on an empty list.
\<close>

fun max_loop :: "pyfloat \<Rightarrow> pyfloat list \<Rightarrow> pyfloat" where
  "max_loop m [] = m"
| "max_loop m (x # xs) = max_loop (if fgt x m then x else m) xs"

fun py_max :: "pyfloat list \<Rightarrow> exn + pyfloat" where
  "py_max [] = Inl ValueError"
| "py_max (x # xs) = Inr (max_loop x xs)"

text \<open>
  A number that is an int or a float. \<open>sum(xs)\<close> starts from the int \<open>0\<close> and adds
  the items from left to right; \<open>0 + x\<close> converts the \<open>0\<close> to \<open>0.0\<close>.
\<close>

datatype pynum = NInt int | NFloat pyfloat

definition py_sum :: "pyfloat list \<Rightarrow> pynum" where
  "py_sum xs = (if xs = [] then NInt 0 else NFloat (foldl fadd (Num 0) xs))"

fun py_truediv :: "pynum \<Rightarrow> int \<Rightarrow> exn + pynum" where
  "py_truediv (NInt a) n = map_sum id NFloat (int_truediv a n)"
| "py_truediv (NFloat x) n = map_sum id NFloat (float_truediv_int x n)"

text \<open>\<open>round(x, 1)\<close>: an int is returned as it is, a float is rounded to one decimal.\<close>

fun py_round_1 :: "pynum \<Rightarrow> pynum" where
  "py_round_1 (NInt n) = NInt n"
| "py_round_1 (NFloat x) = NFloat (py_round1 x)"

fun py_float_num :: "pynum \<Rightarrow> exn + pyfloat" where
  "py_float_num (NInt n) = float_of_int n"
| "py_float_num (NFloat x) = Inr x"

fun py_str :: "pynum \<Rightarrow> pystr" where
  "py_str (NInt n) = py_str_int n"
| "py_str (NFloat x) = py_repr_float x"

section \<open>The renderer\<close>

subsection \<open>\<open>str.format\<close> and \<open>html.escape\<close>\<close>

text \<open>
  \<open>template.format(**kw)\<close>, for the replacement fields the script's two templates
  use: \<open>{name}\<close> is replaced by \<open>str\<close> of the keyword argument \<open>name\<close> (the
  arguments are passed here as strings already), \<open>{{\<close> and \<open>}}\<close> stand for a brace,
  a lone \<open>}\<close> or an unclosed field raises \<open>ValueError\<close> and an unknown name
  \<open>KeyError\<close>. Conversions and format specifications, which the templates do not
  use, are not modelled. The second argument is the field being read, if any.
\<close>

definition lit :: "nat \<Rightarrow> exn + pystr \<Rightarrow> exn + pystr" where
  "lit c r = (case r of Inl e \<Rightarrow> Inl e | Inr s \<Rightarrow> Inr (c # s))"

definition subst :: "pystr option \<Rightarrow> exn + pystr \<Rightarrow> exn + pystr" where
  "subst v r = (case v of None \<Rightarrow> Inl KeyError
     | Some t \<Rightarrow> (case r of Inl e \<Rightarrow> Inl e | Inr s \<Rightarrow> Inr (t @ s)))"

fun fmt :: "(pystr \<times> pystr) list \<Rightarrow> pystr option \<Rightarrow> pystr \<Rightarrow> exn + pystr" where
  "fmt kw None [] = Inr []"
| "fmt kw (Some f) [] = Inl ValueError"
| "fmt kw (Some f) (c # cs) =
     (if c = 125 then subst (map_of kw f) (fmt kw None cs) else fmt kw (Some (f @ [c])) cs)"
| "fmt kw None [c] = (if c = 123 \<or> c = 125 then Inl ValueError else Inr [c])"
| "fmt kw None (c # d # cs) =
     (if c = 123 then (if d = 123 then lit 123 (fmt kw None cs) else fmt kw (Some []) (d # cs))
      else if c = 125 then (if d = 125 then lit 125 (fmt kw None cs) else Inl ValueError)
      else lit c (fmt kw None (d # cs)))"

definition py_format :: "pystr \<Rightarrow> (pystr \<times> pystr) list \<Rightarrow> exn + pystr" where
  "py_format template kw = fmt kw None template"

text \<open>
  \<open>html.escape(s)\<close> with its default \<open>quote=True\<close>: five \<open>str.replace\<close> calls in
  this order, each replacing one character.
\<close>

definition replace1 :: "nat \<Rightarrow> pystr \<Rightarrow> pystr \<Rightarrow> pystr" where
  "replace1 c r s = concat (map (\<lambda>x. if x = c then r else [x]) s)"

definition escape :: "pystr \<Rightarrow> pystr" where
  "escape s = replace1 39 (ustr ''&#x27;'') (replace1 34 (ustr ''&quot;'')
     (replace1 62 (ustr ''&gt;'') (replace1 60 (ustr ''&lt;'') (replace1 38 (ustr ''&amp;'') s))))"

subsection \<open>\<open>render_badge\<close>\<close>

definition BADGE_TEMPLATE :: pystr where
  \<open>BADGE_TEMPLATE = ustr (
    ''<svg xmlns="http://www.w3.org/2000/svg" width="{width}" height="20" viewBox="0 0 {width} 20" role="img" aria-label="MonkeyType: {label}">\<newline>'' @
    ''  <title>MonkeyType: {label}</title>\<newline>'' @
    ''  <linearGradient id="g" x2="0" y2="100%">\<newline>'' @
    ''    <stop offset="0" stop-color="#bbb" stop-opacity=".1"/>\<newline>'' @
    ''    <stop offset="1" stop-opacity=".1"/>\<newline>'' @
    ''  </linearGradient>\<newline>'' @
    ''  <rect rx="3" width="{width}" height="20" fill="#555"/>\<newline>'' @
    ''  <rect rx="3" x="{left_width}" width="{right_width}" height="20" fill="#2aa198"/>\<newline>'' @
    ''  <rect rx="3" width="{width}" height="20" fill="url(#g)"/>\<newline>'' @
    ''  <g fill="#fff" text-anchor="middle" font-family="DejaVu Sans,Verdana,Geneva,sans-serif" font-size="11">\<newline>'' @
    ''    <text x="{left_center}" y="14" fill="#fff">MonkeyType</text>\<newline>'' @
    ''    <text x="{right_center}" y="14" fill="#fff">{value_text}</text>\<newline>'' @
    ''  </g>\<newline>'' @
    ''</svg>\<newline>'')\<close>

text \<open>
  The local variables of \<open>render_badge\<close>, as functions of its argument. The two
  centres are floats: \<open>/\<close> is true division.
\<close>

definition left_width :: int where
  "left_width = 72"

definition right_width :: "pystr \<Rightarrow> int" where
  "right_width value_text = max 60 (7 * int (length value_text) + 20)"

definition width :: "pystr \<Rightarrow> int" where
  "width value_text = left_width + right_width value_text"

definition left_center :: "exn + pyfloat" where
  "left_center = int_truediv left_width 2"

definition right_center :: "pystr \<Rightarrow> exn + pyfloat" where
  "right_center value_text = (case int_truediv (right_width value_text) 2 of
       Inl e \<Rightarrow> Inl e
     | Inr h \<Rightarrow> int_add_float left_width h)"

definition render_badge :: "pystr \<Rightarrow> exn + pystr" where
  "render_badge value_text =
     (case left_center of Inl e \<Rightarrow> Inl e | Inr lc \<Rightarrow>
      (case right_center value_text of Inl e \<Rightarrow> Inl e | Inr rc \<Rightarrow>
       py_format BADGE_TEMPLATE
         [(ustr ''width'', py_str_int (width value_text)),
          (ustr ''left_width'', py_str_int left_width),
          (ustr ''right_width'', py_str_int (right_width value_text)),
          (ustr ''left_center'', py_repr_float lc),
          (ustr ''right_center'', py_repr_float rc),
          (ustr ''label'', escape value_text),
          (ustr ''value_text'', escape value_text)]))"

section \<open>The fetcher\<close>

text \<open>
  The network is a parameter: \<open>requests.get(url, ...)\<close> either raises or returns a
  response with a status code, and \<open>res.json()\<close> either raises or returns the decoded
  payload. The diagnostic lines printed to the error stream are not modelled.
\<close>

record response =
  status_code :: int
  json :: "exn + pyval"

type_synonym network = "pystr \<Rightarrow> exn + response"

definition MONKEYTYPE_SCOREBOARD_URL :: pystr where
  "MONKEYTYPE_SCOREBOARD_URL = ustr ''https://monkeytype.com/api/scoreboard?user={username}''"

record stats =
  best_wpm :: int
  avg_acc :: pynum

text \<open>
  \<open>safe_int(v, default=0)\<close> is \<open>int(round(float(v)))\<close>, or the default when any of
  the three calls raises.
\<close>

definition safe_int :: "pynum \<Rightarrow> int" where
  "safe_int v = (case py_float_num v of
       Inl e \<Rightarrow> 0
     | Inr f \<Rightarrow> (case py_round f of Inl e \<Rightarrow> 0 | Inr n \<Rightarrow> n))"

text \<open>
  One field of one record: \<open>if key in item: try: xs.append(float(item.get(key, 0)))
  except Exception: pass\<close>.
\<close>

definition collect :: "pystr \<Rightarrow> (pystr \<times> pyval) list \<Rightarrow> pyfloat list \<Rightarrow> pyfloat list" where
  "collect key item xs =
     (if dict_contains item key
      then (case py_float (dict_get item key (PInt 0)) of Inl e \<Rightarrow> xs | Inr f \<Rightarrow> xs @ [f])
      else xs)"

text \<open>The loop over the records, with the two lists as its state.\<close>

fun extract_loop :: "pyval list \<Rightarrow> pyfloat list \<times> pyfloat list \<Rightarrow> pyfloat list \<times> pyfloat list" where
  "extract_loop [] st = st"
| "extract_loop (PDict item # rest) (wpms, accs) =
     extract_loop rest (collect (ustr ''wpm'') item wpms, collect (ustr ''acc'') item accs)"
| "extract_loop (other # rest) st = extract_loop rest st"

text \<open>The two aggregates and the returned dict, from the two lists.\<close>

definition aggregate :: "pyfloat list \<times> pyfloat list \<Rightarrow> exn + stats option" where
  "aggregate st =
     (case (if fst st \<noteq> [] then map_sum id NFloat (py_max (fst st)) else Inr (NInt 0)) of
        Inl e \<Rightarrow> Inl e
      | Inr m \<Rightarrow>
         (case (if snd st \<noteq> [] then py_truediv (py_sum (snd st)) (int (length (snd st)))
                else Inr (NInt 0)) of
            Inl e \<Rightarrow> Inl e
          | Inr q \<Rightarrow> Inr (Some \<lparr>best_wpm = safe_int m, avg_acc = py_round_1 q\<rparr>)))"

definition fetch_stats :: "network \<Rightarrow> pystr \<Rightarrow> exn + stats option" where
  "fetch_stats net username =
     (case py_format MONKEYTYPE_SCOREBOARD_URL [(ustr ''username'', username)] of
        Inl e \<Rightarrow> Inl e
      | Inr url \<Rightarrow>
         (case net url of
            Inl e \<Rightarrow> Inr None
          | Inr res \<Rightarrow>
             if status_code res \<noteq> 200 then Inr None
             else (case json res of
                     Inl e \<Rightarrow> Inr None
                   | Inr data \<Rightarrow>
                      (case data of
                         PList items \<Rightarrow> if length items = 0 then Inr None
                                        else aggregate (extract_loop items ([], []))
                       | _ \<Rightarrow> Inr None))))"

section \<open>The entry point\<close>

text \<open>
  The display string of \<open>main\<close>: \<open>"no data"\<close> when \<open>stats\<close> is falsy (it is \<open>None\<close>;
  the dict has two keys and is truthy), and the f-string otherwise. Between
  \<open>" WPM "\<close> and the blank the source file holds the bytes \<open>c3 82 c2 b7\<close>, which
  Python reads (as UTF-8) as the two code points U+00C2 and U+00B7.
\<close>

definition value_text :: "stats option \<Rightarrow> pystr" where
  "value_text st = (case st of
       None \<Rightarrow> ustr ''no data''
     | Some d \<Rightarrow> py_str_int (best_wpm d) @ ustr '' WPM '' @ [194, 183] @ ustr '' ''
         @ py_str (avg_acc d) @ ustr ''%'')"

text \<open>\<open>main\<close> up to the call of the renderer: the display string and the markup.\<close>

definition main_label :: "network \<Rightarrow> pystr \<Rightarrow> exn + pystr" where
  "main_label net username = map_sum id value_text (fetch_stats net username)"

definition main_svg :: "network \<Rightarrow> pystr \<Rightarrow> exn + pystr" where
  "main_svg net username = (case main_label net username of
       Inl e \<Rightarrow> Inl e
     | Inr t \<Rightarrow> render_badge t)"

section \<open>Notions used in the statements\<close>

text \<open>The URL the fetcher requests for a user name.\<close>

definition scoreboard_url :: "pystr \<Rightarrow> pystr" where
  "scoreboard_url username = ustr ''https://monkeytype.com/api/scoreboard?user='' @ username"

text \<open>A network that answers every request with status 200 and the given payload.\<close>

definition serve :: "pyval \<Rightarrow> network" where
  "serve data = (\<lambda>url. Inr \<lparr>status_code = 200, json = Inr data\<rparr>)"

text \<open>
  The float a record contributes for a key, if any: the record is a dict, has the key,
  and \<open>float\<close> of the value does not raise. \<open>field_values\<close> are the contributions of
  a list of records, in order: the list the loop builds for that key.
\<close>

definition coerced :: "pystr \<Rightarrow> pyval \<Rightarrow> pyfloat option" where
  "coerced key item = (case item of
       PDict kvs \<Rightarrow> (case map_of kvs key of
           None \<Rightarrow> None
         | Some v \<Rightarrow> (case py_float v of Inl e \<Rightarrow> None | Inr f \<Rightarrow> Some f))
     | _ \<Rightarrow> None)"

definition field_values :: "pystr \<Rightarrow> pyval list \<Rightarrow> pyfloat list" where
  "field_values key items = List.map_filter (coerced key) items"

text \<open>The two aggregates as functions of the two lists.\<close>

definition best_of :: "pyfloat list \<Rightarrow> int" where
  "best_of wpms = safe_int (case wpms of [] \<Rightarrow> NInt 0 | x # xs \<Rightarrow> NFloat (max_loop x xs))"

definition float_mean :: "pyfloat list \<Rightarrow> pyfloat" where
  "float_mean accs = fdiv_finite (foldl fadd (Num 0) accs) (fval (fl64 (of_nat (length accs))))"

definition avg_of :: "pyfloat list \<Rightarrow> pynum" where
  "avg_of accs = (if accs = [] then NInt 0 else NFloat (py_round1 (float_mean accs)))"






section \<open>Markup\<close>

text \<open>
  The template with its eleven fields filled in, and the float that \<open>right_center\<close>
  is when nothing raises.
\<close>

definition markup :: "pystr \<Rightarrow> pystr \<Rightarrow> pystr \<Rightarrow> pystr \<Rightarrow> pystr \<Rightarrow> pystr \<Rightarrow> pystr" where
  \<open>markup W LW RW LC RC E =
    ustr ''<svg xmlns="http://www.w3.org/2000/svg" width="'' @ W
    @ ustr ''" height="20" viewBox="0 0 '' @ W
    @ ustr '' 20" role="img" aria-label="MonkeyType: '' @ E
    @ ustr (''">\<newline>'' @ ''  <title>MonkeyType: '') @ E
    @ ustr (''</title>\<newline>'' @
       ''  <linearGradient id="g" x2="0" y2="100%">\<newline>'' @
       ''    <stop offset="0" stop-color="#bbb" stop-opacity=".1"/>\<newline>'' @
       ''    <stop offset="1" stop-opacity=".1"/>\<newline>'' @
       ''  </linearGradient>\<newline>'' @
       ''  <rect rx="3" width="'') @ W
    @ ustr (''" height="20" fill="#555"/>\<newline>'' @ ''  <rect rx="3" x="'') @ LW
    @ ustr ''" width="'' @ RW
    @ ustr (''" height="20" fill="#2aa198"/>\<newline>'' @ ''  <rect rx="3" width="'') @ W
    @ ustr (''" height="20" fill="url(#g)"/>\<newline>'' @
       ''  <g fill="#fff" text-anchor="middle" font-family="DejaVu Sans,Verdana,Geneva,sans-serif" font-size="11">\<newline>'' @
       ''    <text x="'') @ LC
    @ ustr (''" y="14" fill="#fff">MonkeyType</text>\<newline>'' @ ''    <text x="'') @ RC
    @ ustr ''" y="14" fill="#fff">'' @ E
    @ ustr (''</text>\<newline>'' @ ''  </g>\<newline>'' @ ''</svg>\<newline>'')\<close>

definition right_center_float :: "pystr \<Rightarrow> pyfloat" where
  "right_center_float t = fadd (Num 72) (fl64 (of_int (right_width t) / 2))"

text \<open>
  Well-formed XML, for the part of XML 1.0 that the badge uses: a document is an
  element followed by white space; an element has a name, attributes with distinct
  names and double-quoted values, and either no content (\<open><a/>\<close>) or a list of
  texts and elements. Every character is a legal XML character; a text or an
  attribute value holds no \<open><\<close>, \<open>>\<close> or \<open>"\<close>, and \<open>&\<close> only at the start of one of
  the references \<open>&amp; &lt; &gt; &quot; &apos; &#x27;\<close>. \<open>ser\<close> writes a tree out.
  \<open>repr_char\<close> are the characters \<open>repr\<close> of a float is made of.
\<close>

definition xml_char :: "nat \<Rightarrow> bool" where
  "xml_char c = (c = 9 \<or> c = 10 \<or> c = 13 \<or> (32 \<le> c \<and> c \<le> 55295)
     \<or> (57344 \<le> c \<and> c \<le> 65533) \<or> (65536 \<le> c \<and> c \<le> 1114111))"

definition name_start :: "nat \<Rightarrow> bool" where
  "name_start c = ((65 \<le> c \<and> c \<le> 90) \<or> (97 \<le> c \<and> c \<le> 122) \<or> c = 95 \<or> c = 58)"

definition name_char :: "nat \<Rightarrow> bool" where
  "name_char c = (name_start c \<or> (48 \<le> c \<and> c \<le> 57) \<or> c = 45 \<or> c = 46)"

definition xml_name :: "pystr \<Rightarrow> bool" where
  "xml_name n = (n \<noteq> [] \<and> name_start (hd n) \<and> list_all name_char n)"

definition references :: "pystr list" where
  "references = map ustr [''amp;'', ''lt;'', ''gt;'', ''quot;'', ''apos;'', ''#x27;'']"

definition plain :: "nat \<Rightarrow> bool" where
  "plain c = (c \<noteq> 60 \<and> c \<noteq> 62 \<and> c \<noteq> 38 \<and> c \<noteq> 34)"

inductive escaped :: "pystr \<Rightarrow> bool" where
  Nil: "escaped []"
| Char: "plain c \<Longrightarrow> escaped cs \<Longrightarrow> escaped (c # cs)"
| Ref: "r \<in> set references \<Longrightarrow> escaped cs \<Longrightarrow> escaped (38 # r @ cs)"

datatype xml = Text pystr | Elem pystr "(pystr \<times> pystr) list" "xml list"
  | Empty pystr "(pystr \<times> pystr) list"

definition ser_attrs :: "(pystr \<times> pystr) list \<Rightarrow> pystr" where
  "ser_attrs as = concat (map (\<lambda>(k, v). 32 # k @ [61, 34] @ v @ [34]) as)"

fun ser :: "xml \<Rightarrow> pystr" where
  "ser (Text t) = t"
| "ser (Elem n as cs) = 60 # n @ ser_attrs as @ [62] @ concat (map ser cs) @ [60, 47] @ n @ [62]"
| "ser (Empty n as) = 60 # n @ ser_attrs as @ [47, 62]"

definition wf_tag :: "pystr \<Rightarrow> (pystr \<times> pystr) list \<Rightarrow> bool" where
  "wf_tag n as = (xml_name n \<and> distinct (map fst as)
     \<and> list_all (\<lambda>(k, v). xml_name k \<and> escaped v \<and> list_all xml_char v) as)"

fun wf_tree :: "xml \<Rightarrow> bool" where
  "wf_tree (Text t) = (escaped t \<and> list_all xml_char t)"
| "wf_tree (Elem n as cs) = (wf_tag n as \<and> list_all wf_tree cs)"
| "wf_tree (Empty n as) = wf_tag n as"

fun is_element :: "xml \<Rightarrow> bool" where
  "is_element (Text t) = False"
| "is_element _ = True"

definition well_formed :: "pystr \<Rightarrow> bool" where
  "well_formed s = (\<exists>tree trail. is_element tree \<and> wf_tree tree
     \<and> list_all (\<lambda>c. c = 32 \<or> c = 9 \<or> c = 10 \<or> c = 13) trail \<and> s = ser tree @ trail)"

definition badge_tree :: "pystr \<Rightarrow> pystr \<Rightarrow> pystr \<Rightarrow> pystr \<Rightarrow> pystr \<Rightarrow> pystr \<Rightarrow> xml" where
  \<open>badge_tree W LW RW LC RC E =
    Elem (ustr ''svg'')
      [(ustr ''xmlns'', ustr ''http://www.w3.org/2000/svg''), (ustr ''width'', W),
       (ustr ''height'', ustr ''20''), (ustr ''viewBox'', ustr ''0 0 '' @ W @ ustr '' 20''),
       (ustr ''role'', ustr ''img''), (ustr ''aria-label'', ustr ''MonkeyType: '' @ E)]
      [Text (ustr ''\<newline>  ''),
       Elem (ustr ''title'') [] [Text (ustr ''MonkeyType: '' @ E)],
       Text (ustr ''\<newline>  ''),
       Elem (ustr ''linearGradient'')
         [(ustr ''id'', ustr ''g''), (ustr ''x2'', ustr ''0''), (ustr ''y2'', ustr ''100%'')]
         [Text (ustr ''\<newline>    ''),
          Empty (ustr ''stop'') [(ustr ''offset'', ustr ''0''), (ustr ''stop-color'', ustr ''#bbb''),
             (ustr ''stop-opacity'', ustr ''.1'')],
          Text (ustr ''\<newline>    ''),
          Empty (ustr ''stop'') [(ustr ''offset'', ustr ''1''), (ustr ''stop-opacity'', ustr ''.1'')],
          Text (ustr ''\<newline>  '')],
       Text (ustr ''\<newline>  ''),
       Empty (ustr ''rect'') [(ustr ''rx'', ustr ''3''), (ustr ''width'', W),
          (ustr ''height'', ustr ''20''), (ustr ''fill'', ustr ''#555'')],
       Text (ustr ''\<newline>  ''),
       Empty (ustr ''rect'') [(ustr ''rx'', ustr ''3''), (ustr ''x'', LW), (ustr ''width'', RW),
          (ustr ''height'', ustr ''20''), (ustr ''fill'', ustr ''#2aa198'')],
       Text (ustr ''\<newline>  ''),
       Empty (ustr ''rect'') [(ustr ''rx'', ustr ''3''), (ustr ''width'', W),
          (ustr ''height'', ustr ''20''), (ustr ''fill'', ustr ''url(#g)'')],
       Text (ustr ''\<newline>  ''),
       Elem (ustr ''g'')
         [(ustr ''fill'', ustr ''#fff''), (ustr ''text-anchor'', ustr ''middle''),
          (ustr ''font-family'', ustr ''DejaVu Sans,Verdana,Geneva,sans-serif''),
          (ustr ''font-size'', ustr ''11'')]
         [Text (ustr ''\<newline>    ''),
          Elem (ustr ''text'') [(ustr ''x'', LC), (ustr ''y'', ustr ''14''), (ustr ''fill'', ustr ''#fff'')]
            [Text (ustr ''MonkeyType'')],
          Text (ustr ''\<newline>    ''),
          Elem (ustr ''text'') [(ustr ''x'', RC), (ustr ''y'', ustr ''14''), (ustr ''fill'', ustr ''#fff'')]
            [Text E],
          Text (ustr ''\<newline>  '')],
       Text (ustr ''\<newline>'')]\<close>

definition repr_char :: "nat \<Rightarrow> bool" where
  "repr_char c = (is_digit c \<or> c \<in> set (ustr ''.e+-infa''))"

section \<open>Facts about the numeric model\<close>

lemma pow2_pos: "0 < pow2 k"
  by (simp add: pow2_def)

lemma pow2_add: "pow2 (j + k) = pow2 j * pow2 k"
proof -
  have "pow2 k = 2 powi k" for k
    unfolding pow2_def power_int_def by (simp add: power_divide inverse_eq_divide)
  then show ?thesis by (simp add: power_int_add)
qed

lemma pow2_nat: "0 \<le> k \<Longrightarrow> pow2 k = 2 ^ nat k"
  by (simp add: pow2_def)

lemma pow2_mono: "j \<le> k \<Longrightarrow> pow2 j \<le> pow2 k"
proof -
  assume "j \<le> k"
  then have "pow2 k = pow2 j * 2 ^ nat (k - j)"
    using pow2_add [of j "k - j"] by (simp add: pow2_nat)
  moreover have "(1::rat) \<le> 2 ^ nat (k - j)" by simp
  ultimately show ?thesis using pow2_pos [of j]
    by (metis mult.right_neutral mult_le_cancel_left_pos)
qed

lemma bitlen_pos: "0 < n \<Longrightarrow> 0 < bitlen n"
  by (induction n rule: bitlen.induct) (subst bitlen.simps, auto simp: bitlen.simps)

lemma bitlen_bounds: "0 < n \<Longrightarrow> 2 ^ nat (bitlen n - 1) \<le> n \<and> n < 2 ^ nat (bitlen n)"
proof (induction n rule: bitlen.induct)
  case (1 n)
  show ?case
  proof (cases "n = 1")
    case True
    then show ?thesis by (simp add: bitlen.simps)
  next
    case False
    with 1 have h: "0 < n div 2" by simp
    then have ih: "2 ^ nat (bitlen (n div 2) - 1) \<le> n div 2" "n div 2 < 2 ^ nat (bitlen (n div 2))"
      using 1 by auto
    have bl: "bitlen n = bitlen (n div 2) + 1" using 1 by (subst bitlen.simps) simp
    have p: "0 < bitlen (n div 2)" using h by (rule bitlen_pos)
    then have e: "nat (bitlen (n div 2)) = Suc (nat (bitlen (n div 2) - 1))" by simp
    have "2 * 2 ^ nat (bitlen (n div 2) - 1) \<le> n" using ih(1) by linarith
    moreover have "n < 2 * 2 ^ nat (bitlen (n div 2))" using ih(2) by linarith
    ultimately show ?thesis using bl e p by (simp add: nat_add_distrib)
  qed
qed

lemma ilog2_bounds:
  assumes "0 < a"
  shows "pow2 (ilog2 a) \<le> a \<and> a < pow2 (ilog2 a + 1)"
proof (cases "1 \<le> a")
  case True
  define f where "f = \<lfloor>a\<rfloor>"
  have f1: "1 \<le> f" using True by (simp add: f_def)
  then have b: "2 ^ nat (bitlen f - 1) \<le> f" "f < 2 ^ nat (bitlen f)"
    using bitlen_bounds [of f] by auto
  have bp: "0 < bitlen f" using f1 by (intro bitlen_pos) simp
  have il: "ilog2 a = bitlen f - 1" using True by (simp add: ilog2_def f_def)
  have "(2 ^ nat (bitlen f - 1) :: rat) \<le> of_int f"
    using b(1) by (metis of_int_le_iff of_int_numeral of_int_power)
  moreover have "of_int f \<le> a" by (simp add: f_def)
  ultimately have "2 ^ nat (bitlen f - 1) \<le> a" by linarith
  then have lo: "pow2 (ilog2 a) \<le> a" using bp by (simp add: il pow2_nat)
  have "f + 1 \<le> 2 ^ nat (bitlen f)" using b(2) by simp
  then have "(of_int (f + 1) :: rat) \<le> 2 ^ nat (bitlen f)"
    by (metis of_int_le_iff of_int_numeral of_int_power)
  moreover have "a < of_int (f + 1)" unfolding f_def using floor_correct [of a] by simp
  ultimately have "a < 2 ^ nat (bitlen f)" by linarith
  then have hi: "a < pow2 (ilog2 a + 1)" using bp by (simp add: il pow2_nat)
  show ?thesis using lo hi by simp
next
  case False
  define c where "c = \<lceil>1 / a\<rceil>"
  have inv: "1 < 1 / a" using False assms by simp
  then have c2: "2 \<le> c" unfolding c_def by (simp add: le_ceiling_iff)
  then have b: "2 ^ nat (bitlen (c - 1) - 1) \<le> c - 1" "c - 1 < 2 ^ nat (bitlen (c - 1))"
    using bitlen_bounds [of "c - 1"] by auto
  have bp: "0 < bitlen (c - 1)" using c2 by (intro bitlen_pos) simp
  define k where "k = bitlen (c - 1)"
  have il: "ilog2 a = - k" using False by (simp add: ilog2_def c_def k_def)
  have "c \<le> 2 ^ nat k" using b(2) by (simp add: k_def)
  then have "(of_int c :: rat) \<le> 2 ^ nat k" by simp
  moreover have "1 / a \<le> of_int c" by (simp add: c_def)
  ultimately have "1 / a \<le> 2 ^ nat k" by linarith
  then have "1 \<le> 2 ^ nat k * a" using assms by (simp add: pos_divide_le_eq)
  then have "1 / 2 ^ nat k \<le> a" by (simp add: pos_divide_le_eq mult.commute)
  then have lo: "pow2 (ilog2 a) \<le> a" using bp by (simp add: il pow2_def k_def)
  have "(2 ^ nat (k - 1) :: rat) \<le> of_int (c - 1)"
    using b(1) unfolding k_def by (metis of_int_le_iff of_int_numeral of_int_power)
  moreover have "of_int (c - 1) < 1 / a" unfolding c_def
    using ceiling_correct [of "1 / a"] by simp
  ultimately have "2 ^ nat (k - 1) < 1 / a" by linarith
  then have "2 ^ nat (k - 1) * a < 1" using assms by (simp add: pos_less_divide_eq)
  then have "a < 1 / 2 ^ nat (k - 1)" by (simp add: pos_less_divide_eq mult.commute)
  moreover have "pow2 (- k + 1) = 1 / 2 ^ nat (k - 1)"
    using bp by (cases "k = 1") (auto simp: pow2_def k_def)
  ultimately have hi: "a < pow2 (ilog2 a + 1)" by (simp add: il)
  show ?thesis using lo hi by simp
qed

lemma ilog2_less: "0 < a \<Longrightarrow> a < pow2 k \<Longrightarrow> ilog2 a < k"
proof (rule ccontr)
  assume a: "0 < a" "a < pow2 k" and n: "\<not> ilog2 a < k"
  then have "pow2 k \<le> pow2 (ilog2 a)" by (intro pow2_mono) simp
  with ilog2_bounds [OF a(1)] a(2) show False by simp
qed

lemma ilog2_ge: "0 < a \<Longrightarrow> pow2 k \<le> a \<Longrightarrow> k \<le> ilog2 a"
proof (rule ccontr)
  assume a: "0 < a" "pow2 k \<le> a" and n: "\<not> k \<le> ilog2 a"
  then have "pow2 (ilog2 a + 1) \<le> pow2 k" by (intro pow2_mono) simp
  with ilog2_bounds [OF a(1)] a(2) show False by simp
qed

lemma round_half_even_ge: "of_int k \<le> x \<Longrightarrow> k \<le> round_half_even x"
proof -
  assume "of_int k \<le> x"
  then have "k \<le> \<lfloor>x\<rfloor>" by (simp add: le_floor_iff)
  then show ?thesis by (simp add: round_half_even_def half_even_def)
qed




lemma fl64_pos:
  assumes "1 \<le> x" and "x < 2 ^ 1023"
  shows "\<exists>y. fl64 x = Num y \<and> 0 < y"
proof -
  have pos: "0 < x" using assms by simp
  define e where "e = ilog2 x"
  have "pow2 0 \<le> x" using assms by (simp add: pow2_def)
  then have e0: "0 \<le> e" unfolding e_def using ilog2_ge [OF pos] by blast
  have "pow2 1023 = 2 ^ 1023" by (simp add: pow2_def)
  then have e1: "e < 1023" unfolding e_def using ilog2_less [OF pos, of 1023] assms by simp
  define n where "n = round_half_even (x / pow2 (e - 52))"
  have "pow2 (e - 52) \<le> pow2 e" by (intro pow2_mono) simp
  also have "\<dots> \<le> x" unfolding e_def using ilog2_bounds [OF pos] by simp
  finally have "1 \<le> x / pow2 (e - 52)" using pow2_pos [of "e - 52"] by (simp add: pos_le_divide_eq)
  then have n1: "1 \<le> n" unfolding n_def using round_half_even_ge [of 1] by simp
  have "fl64 x = fl64_pack False e n"
    using pos e0 by (simp add: fl64_def fl64_scale_def e_def n_def max_def)
  also have "\<dots> = Num (of_int n * pow2 (e - 52))"
    using e1 n1 by (simp add: fl64_pack_def)
  finally have "fl64 x = Num (of_int n * pow2 (e - 52))" .
  moreover have "0 < (of_int n :: rat) * pow2 (e - 52)" using n1 pow2_pos [of "e - 52"] by simp
  ultimately show ?thesis by blast
qed

lemma float_of_int_length:
  assumes "1 \<le> n" and "n < 2 ^ 63"
  shows "\<exists>y. float_of_int n = Inr (Num y) \<and> 0 < y"
proof -
  have "(of_int n :: rat) < 2 ^ 63" using assms(2) by (metis of_int_less_iff of_int_numeral of_int_power)
  moreover have "(2::rat) ^ 63 < 2 ^ 1023" by simp
  ultimately have "(of_int n :: rat) < 2 ^ 1023" by linarith
  moreover have "(1::rat) \<le> of_int n" using assms(1) by simp
  ultimately obtain y where "fl64 (of_int n) = Num y" "0 < y" using fl64_pos by blast
  then show ?thesis by (simp add: float_of_int_def)
qed

section \<open>Facts about formatting and the fetcher\<close>

lemma fmt_lit:
  "123 \<notin> set xs \<Longrightarrow> 125 \<notin> set xs \<Longrightarrow>
   fmt kw None (xs @ ys) = (case fmt kw None ys of Inl e \<Rightarrow> Inl e | Inr r \<Rightarrow> Inr (xs @ r))"
proof (induction xs)
  case Nil
  then show ?case by (simp split: sum.splits)
next
  case (Cons c xs)
  then have ih: "fmt kw None (xs @ ys) = (case fmt kw None ys of Inl e \<Rightarrow> Inl e | Inr r \<Rightarrow> Inr (xs @ r))"
    and c: "c \<noteq> 123" "c \<noteq> 125" by auto
  show ?case
  proof (cases "xs @ ys")
    case Nil
    then show ?thesis using c by simp
  next
    case (Cons d ds)
    then have "fmt kw None ((c # xs) @ ys) = lit c (fmt kw None (xs @ ys))" using c by simp
    then show ?thesis using ih by (simp add: lit_def split: sum.splits)
  qed
qed

lemma fmt_name:
  "125 \<notin> set f \<Longrightarrow>
   fmt kw (Some g) (f @ 125 # ys) = subst (map_of kw (g @ f)) (fmt kw None ys)"
  by (induction f arbitrary: g) auto

lemma fmt_field:
  "f \<noteq> [] \<Longrightarrow> hd f \<noteq> 123 \<Longrightarrow> 125 \<notin> set f \<Longrightarrow>
   fmt kw None (123 # f @ 125 # ys) = subst (map_of kw f) (fmt kw None ys)"
proof -
  assume a: "f \<noteq> []" "hd f \<noteq> 123" "125 \<notin> set f"
  then obtain d ds where f: "f = d # ds" by (cases f) auto
  then have "fmt kw None (123 # f @ 125 # ys) = fmt kw (Some []) (f @ 125 # ys)"
    using a by simp
  then show ?thesis using fmt_name [OF a(3), of kw "[]" ys] by simp
qed

lemma url_format:
  "py_format MONKEYTYPE_SCOREBOARD_URL [(ustr ''username'', u)] = Inr (scoreboard_url u)"
proof -
  have t: "MONKEYTYPE_SCOREBOARD_URL =
      ustr ''https://monkeytype.com/api/scoreboard?user='' @ 123 # ustr ''username'' @ 125 # []"
    by (simp add: MONKEYTYPE_SCOREBOARD_URL_def ustr_def)
  have "fmt [(ustr ''username'', u)] None (123 # ustr ''username'' @ 125 # [])
      = subst (map_of [(ustr ''username'', u)] (ustr ''username'')) (fmt [(ustr ''username'', u)] None [])"
    by (rule fmt_field) (simp_all add: ustr_def)
  then have "fmt [(ustr ''username'', u)] None (123 # ustr ''username'' @ 125 # []) = Inr u"
    by (simp add: subst_def)
  then show ?thesis
    unfolding py_format_def t scoreboard_url_def
    by (subst fmt_lit) (simp_all add: ustr_def)
qed

lemma fetch_stats_url:
  "fetch_stats net username =
     (case net (scoreboard_url username) of
        Inl e \<Rightarrow> Inr None
      | Inr res \<Rightarrow>
         if status_code res \<noteq> 200 then Inr None
         else (case json res of
                 Inl e \<Rightarrow> Inr None
               | Inr data \<Rightarrow>
                  (case data of
                     PList items \<Rightarrow> if length items = 0 then Inr None
                                    else aggregate (extract_loop items ([], []))
                   | _ \<Rightarrow> Inr None)))"
  by (simp add: fetch_stats_def url_format)

lemma collect_eq:
  "collect key kvs xs = xs @ (case coerced key (PDict kvs) of None \<Rightarrow> [] | Some f \<Rightarrow> [f])"
proof (cases "map_of kvs key")
  case None
  then have "key \<notin> fst ` set kvs" by (simp add: map_of_eq_None_iff)
  then show ?thesis using None by (simp add: collect_def coerced_def dict_contains_def)
next
  case (Some v)
  then have "key \<in> fst ` set kvs" by (metis map_of_eq_None_iff option.distinct(1))
  then show ?thesis using Some
    by (simp add: collect_def coerced_def dict_contains_def dict_get_def split: sum.splits)
qed

lemma extract_loop_eq:
  "extract_loop items (w, a) =
     (w @ field_values (ustr ''wpm'') items, a @ field_values (ustr ''acc'') items)"
proof (induction items arbitrary: w a)
  case Nil
  then show ?case by (simp add: field_values_def List.map_filter_simps)
next
  case (Cons item items)
  show ?case
  proof (cases "\<exists>kvs. item = PDict kvs")
    case True
    then obtain kvs where "item = PDict kvs" by blast
    then show ?thesis
      using Cons [of "collect (ustr ''wpm'') kvs w" "collect (ustr ''acc'') kvs a"]
      by (simp add: collect_eq field_values_def List.map_filter_simps split: option.splits)
  next
    case False
    then have "extract_loop (item # items) (w, a) = extract_loop items (w, a)"
      by (cases item) simp_all
    moreover have "coerced key item = None" for key
      using False by (cases item) (simp_all add: coerced_def)
    ultimately show ?thesis using Cons [of w a]
      by (simp add: field_values_def List.map_filter_simps)
  qed
qed

lemma length_field_values: "length (field_values key items) \<le> length items"
  by (simp add: field_values_def List.map_filter_def)

lemma aggregate_eq:
  assumes "int (length accs) < 2 ^ 63"
  shows "aggregate (wpms, accs) = Inr (Some \<lparr>best_wpm = best_of wpms, avg_acc = avg_of accs\<rparr>)"
proof -
  have w: "(if wpms \<noteq> [] then map_sum id NFloat (py_max wpms) else Inr (NInt 0))
          = Inr (case wpms of [] \<Rightarrow> NInt 0 | x # xs \<Rightarrow> NFloat (max_loop x xs))"
    by (cases wpms) simp_all
  have a: "(if accs \<noteq> [] then py_truediv (py_sum accs) (int (length accs)) else Inr (NInt 0))
          = Inr (if accs = [] then NInt 0 else NFloat (float_mean accs))"
  proof (cases "accs = []")
    case True
    then show ?thesis by simp
  next
    case False
    then have "1 \<le> int (length accs)" by (cases accs) simp_all
    then obtain y where y: "float_of_int (int (length accs)) = Inr (Num y)" "0 < y"
      using float_of_int_length assms by blast
    then have "fl64 (of_int (int (length accs))) = Num y"
      by (auto simp: float_of_int_def split: pyfloat.splits)
    then show ?thesis using False y
      by (simp add: py_sum_def float_truediv_int_def float_mean_def)
  qed
  show ?thesis unfolding aggregate_def fst_conv snd_conv w a
    by (simp add: best_of_def avg_of_def)
qed

lemma fetch_stats_200:
  assumes "net (scoreboard_url username) = Inr res" and "status_code res = 200"
    and "json res = Inr (PList items)" and "items \<noteq> []" and "int (length items) < 2 ^ 63"
  shows "fetch_stats net username = Inr (Some
     \<lparr>best_wpm = best_of (field_values (ustr ''wpm'') items),
      avg_acc = avg_of (field_values (ustr ''acc'') items)\<rparr>)"
proof -
  have "int (length (field_values (ustr ''acc'') items)) < 2 ^ 63"
    using length_field_values [of "ustr ''acc''" items] assms(5) by linarith
  then show ?thesis using assms
    by (simp add: fetch_stats_url extract_loop_eq aggregate_eq)
qed

lemma field_values_Nil:
  "(\<forall>item\<in>set items. coerced key item = None) \<Longrightarrow> field_values key items = []"
  by (induction items) (simp_all add: field_values_def List.map_filter_simps)

lemma set_field_values:
  "set (field_values key items) = {f. \<exists>item\<in>set items. coerced key item = Some f}"
  by (force simp: field_values_def List.map_filter_def)

lemma best_of_Nil: "best_of [] = 0"
  by (simp add: best_of_def safe_int_def float_of_int_def fl64_def round_half_even_def half_even_def)

lemma fgt_finite: "is_finite a \<Longrightarrow> is_finite b \<Longrightarrow> fgt a b = (fval b < fval a)"
  by (cases a; cases b) simp_all

lemma max_loop_finite:
  "is_finite m \<Longrightarrow> \<forall>x\<in>set xs. is_finite x \<Longrightarrow>
   is_finite (max_loop m xs) \<and> fval (max_loop m xs) = Max (insert (fval m) (fval ` set xs))"
proof (induction xs arbitrary: m)
  case Nil
  then show ?case by simp
next
  case (Cons x xs)
  define m' where "m' = (if fgt x m then x else m)"
  have fin: "is_finite m'" using Cons.prems by (simp add: m'_def)
  have v: "fval m' = max (fval m) (fval x)"
    using Cons.prems by (auto simp: m'_def fgt_finite)
  have "is_finite (max_loop m' xs) \<and> fval (max_loop m' xs) = Max (insert (fval m') (fval ` set xs))"
    using Cons.IH [OF fin] Cons.prems by simp
  moreover have "Max (insert (fval m') (fval ` set xs))
      = Max (insert (fval m) (fval ` set (x # xs)))"
  proof (cases "set xs = {}")
    case True
    then show ?thesis by (simp add: v max.commute)
  next
    case False
    then show ?thesis by (simp add: v max.assoc max.left_commute)
  qed
  ultimately show ?case by (simp add: m'_def)
qed

lemma py_round_finite: "is_finite f \<Longrightarrow> py_round f = Inr (round_half_even (fval f))"
  by (cases f) simp_all

lemma best_of_finite:
  assumes "wpms \<noteq> []" and "\<forall>f\<in>set wpms. is_finite f"
  shows "best_of wpms = round_half_even (Max (fval ` set wpms))"
proof -
  obtain x xs where w: "wpms = x # xs" using assms(1) by (cases wpms) auto
  then have "is_finite (max_loop x xs)" "fval (max_loop x xs) = Max (fval ` set wpms)"
    using max_loop_finite [of x xs] assms(2) by auto
  then show ?thesis by (simp add: best_of_def w safe_int_def py_round_finite)
qed

section \<open>Exact and overflowing float operations\<close>





section \<open>Facts about the renderer\<close>

lemma template_segments:
  \<open>BADGE_TEMPLATE =
    ustr ''<svg xmlns="http://www.w3.org/2000/svg" width="'' @ 123 # ustr ''width'' @ 125 #
    ustr ''" height="20" viewBox="0 0 '' @ 123 # ustr ''width'' @ 125 #
    ustr '' 20" role="img" aria-label="MonkeyType: '' @ 123 # ustr ''label'' @ 125 #
    ustr (''">\<newline>'' @ ''  <title>MonkeyType: '') @ 123 # ustr ''label'' @ 125 #
    ustr (''</title>\<newline>'' @
       ''  <linearGradient id="g" x2="0" y2="100%">\<newline>'' @
       ''    <stop offset="0" stop-color="#bbb" stop-opacity=".1"/>\<newline>'' @
       ''    <stop offset="1" stop-opacity=".1"/>\<newline>'' @
       ''  </linearGradient>\<newline>'' @
       ''  <rect rx="3" width="'') @ 123 # ustr ''width'' @ 125 #
    ustr (''" height="20" fill="#555"/>\<newline>'' @ ''  <rect rx="3" x="'') @ 123 # ustr ''left_width'' @ 125 #
    ustr ''" width="'' @ 123 # ustr ''right_width'' @ 125 #
    ustr (''" height="20" fill="#2aa198"/>\<newline>'' @ ''  <rect rx="3" width="'') @ 123 # ustr ''width'' @ 125 #
    ustr (''" height="20" fill="url(#g)"/>\<newline>'' @
       ''  <g fill="#fff" text-anchor="middle" font-family="DejaVu Sans,Verdana,Geneva,sans-serif" font-size="11">\<newline>'' @
       ''    <text x="'') @ 123 # ustr ''left_center'' @ 125 #
    ustr (''" y="14" fill="#fff">MonkeyType</text>\<newline>'' @ ''    <text x="'') @ 123 # ustr ''right_center'' @ 125 #
    ustr ''" y="14" fill="#fff">'' @ 123 # ustr ''value_text'' @ 125 #
    ustr (''</text>\<newline>'' @ ''  </g>\<newline>'' @ ''</svg>\<newline>'')\<close>
  by (simp add: BADGE_TEMPLATE_def ustr_def)

lemma ustr_inj: "ustr a = ustr b \<longleftrightarrow> a = b"
proof -
  have "inj (of_char :: char \<Rightarrow> nat)" by (rule inj_of_char)
  then show ?thesis unfolding ustr_def by (rule inj_map_eq_map)
qed

lemma brace_ustr:
  "123 \<in> set (ustr s) \<longleftrightarrow> CHR ''{'' \<in> set s"
  "125 \<in> set (ustr s) \<longleftrightarrow> CHR ''}'' \<in> set s"
proof -
  have o: "(123::nat) = of_char (CHR ''{'')" by simp
  have c: "(125::nat) = of_char (CHR ''}'')" by simp
  have i: "inj (of_char :: char \<Rightarrow> nat)" by (rule inj_of_char)
  show "123 \<in> set (ustr s) \<longleftrightarrow> CHR ''{'' \<in> set s"
    unfolding ustr_def o set_map by (rule inj_image_mem_iff [OF i])
  show "125 \<in> set (ustr s) \<longleftrightarrow> CHR ''}'' \<in> set s"
    unfolding ustr_def c set_map by (rule inj_image_mem_iff [OF i])
qed

lemma fmt_text:
  "CHR ''{'' \<notin> set s \<Longrightarrow> CHR ''}'' \<notin> set s \<Longrightarrow>
   fmt kw None (ustr s @ ys) = (case fmt kw None ys of Inl e \<Rightarrow> Inl e | Inr r \<Rightarrow> Inr (ustr s @ r))"
  by (rule fmt_lit) (simp_all add: brace_ustr)

lemma fmt_text_end:
  "CHR ''{'' \<notin> set s \<Longrightarrow> CHR ''}'' \<notin> set s \<Longrightarrow> fmt kw None (ustr s) = Inr (ustr s)"
  using fmt_text [of s kw "[]"] by simp

lemma fmt_named:
  "f \<noteq> [] \<Longrightarrow> CHR ''{'' \<notin> set f \<Longrightarrow> CHR ''}'' \<notin> set f \<Longrightarrow>
   fmt kw None (123 # ustr f @ 125 # ys) = subst (map_of kw (ustr f)) (fmt kw None ys)"
proof -
  assume a: "f \<noteq> []" "CHR ''{'' \<notin> set f" "CHR ''}'' \<notin> set f"
  then have "123 \<notin> set (ustr f)" "125 \<notin> set (ustr f)" "ustr f \<noteq> []"
    by (simp_all add: brace_ustr) (simp add: ustr_def)
  moreover from this have "hd (ustr f) \<noteq> 123" by (cases "ustr f") auto
  ultimately show ?thesis by (intro fmt_field)
qed

lemma format_template:
  "py_format BADGE_TEMPLATE
         [(ustr ''width'', W),
          (ustr ''left_width'', LW),
          (ustr ''right_width'', RW),
          (ustr ''left_center'', LC),
          (ustr ''right_center'', RC),
          (ustr ''label'', E),
          (ustr ''value_text'', E)] = Inr (markup W LW RW LC RC E)"
  unfolding py_format_def template_segments markup_def
  by (simp add: fmt_text fmt_text_end fmt_named ustr_inj subst_def)

lemma markup_tree: "markup W LW RW LC RC E = ser (badge_tree W LW RW LC RC E) @ [10]"
  by (simp add: markup_def badge_tree_def ser_attrs_def ustr_def)

lemma escaped_plain: "list_all plain s \<Longrightarrow> escaped s"
  by (induction s) (auto intro: escaped.intros)

lemma escaped_append: "escaped xs \<Longrightarrow> escaped ys \<Longrightarrow> escaped (xs @ ys)"
  by (induction xs rule: escaped.induct) (auto intro: escaped.intros)

lemma digit_plain: "is_digit c \<Longrightarrow> plain c \<and> xml_char c"
  by (auto simp: is_digit_def plain_def xml_char_def)

lemma dec_digits_digits: "0 \<le> n \<Longrightarrow> list_all is_digit (dec_digits n)"
proof (induction n rule: dec_digits.induct)
  case (1 n)
  show ?case
  proof (cases "n < 10")
    case True
    then have "is_digit (nat (48 + n))" using 1(2) unfolding is_digit_def by linarith
    then show ?thesis using True by (subst dec_digits.simps) simp
  next
    case False
    then have "list_all is_digit (dec_digits (n div 10))" using 1 by simp
    moreover have "0 \<le> n mod 10" "n mod 10 < 10" by simp_all
    then have "is_digit (nat (48 + n mod 10))" unfolding is_digit_def by linarith
    ultimately show ?thesis using False by (subst dec_digits.simps) simp
  qed
qed

lemma repr_char_plain: "repr_char c \<Longrightarrow> plain c \<and> xml_char c"
  by (auto simp: repr_char_def is_digit_def plain_def xml_char_def ustr_def)

lemma list_all_mono: "list_all P xs \<Longrightarrow> (\<And>x. P x \<Longrightarrow> Q x) \<Longrightarrow> list_all Q xs"
  by (induction xs) auto

lemma strip_zeros_nonneg: "0 \<le> n \<Longrightarrow> 0 \<le> strip_zeros n"
proof (induction n rule: strip_zeros.induct)
  case (1 n)
  show ?case
  proof (cases "n \<noteq> 0 \<and> n mod 10 = 0")
    case True
    then have "0 \<le> strip_zeros (n div 10)" using 1 by simp
    then show ?thesis using True by (subst strip_zeros.simps) simp
  next
    case False
    then show ?thesis using 1(2) by (subst strip_zeros.simps) auto
  qed
qed

lemma pow10_pos: "0 < pow10 k"
  by (simp add: pow10_def)

lemma repr_pick_nonneg: "0 < a \<Longrightarrow> 0 \<le> lo \<Longrightarrow> 0 \<le> repr_pick a s lo"
proof -
  assume a: "0 < a" "0 \<le> lo"
  have "0 \<le> a / pow10 s" using a(1) pow10_pos [of s] by simp
  then have "0 \<le> round_half_even (a / pow10 s)" using round_half_even_ge [of 0] by simp
  then show ?thesis using a(2) by (simp add: repr_pick_def)
qed

lemma repr_search_nonneg: "0 < a \<Longrightarrow> 0 \<le> fst (repr_search a k d)"
proof (induction a k d rule: repr_search.induct)
  case (1 a k d)
  have lo: "0 \<le> \<lfloor>a / pow10 (k - int d + 1)\<rfloor>" using 1(2) pow10_pos [of "k - int d + 1"] by simp
  show ?case
    using 1 repr_pick_nonneg [OF 1(2) lo]
    by (subst repr_search.simps) (auto simp del: repr_search.simps)
qed

lemma repr_char_simps:
  "repr_char 45" "repr_char 43" "repr_char 48" "repr_char 46" "repr_char 101"
  by (simp_all add: repr_char_def ustr_def is_digit_def)

lemma digits_repr_chars: "list_all is_digit ds \<Longrightarrow> list_all repr_char ds"
  by (induction ds) (simp_all add: repr_char_def)

lemma exp_digits_chars: "list_all repr_char (exp_digits e)"
proof -
  have "list_all is_digit (dec_digits \<bar>e\<bar>)" by (rule dec_digits_digits) simp
  then have "list_all repr_char (dec_digits \<bar>e\<bar>)" by (rule digits_repr_chars)
  then show ?thesis by (simp add: exp_digits_def repr_char_simps)
qed

lemma list_all_replicate: "P x \<Longrightarrow> list_all P (replicate n x)"
  by (induction n) simp_all

lemma list_all_take: "list_all P xs \<Longrightarrow> list_all P (take n xs)"
  by (metis append_take_drop_id list_all_append)

lemma list_all_drop: "list_all P xs \<Longrightarrow> list_all P (drop n xs)"
  by (metis append_take_drop_id list_all_append)

lemma layout_chars:
  assumes "list_all repr_char ds"
  shows "list_all repr_char (layout ds p)"
  unfolding layout_def
  by (simp add: assms list_all_take list_all_drop list_all_replicate repr_char_simps
      exp_digits_chars)

lemma repr_pos_chars: "0 < a \<Longrightarrow> list_all repr_char (repr_pos a)"
proof -
  assume a: "0 < a"
  obtain n s where r: "repr_search a (ilog10 a) 1 = (n, s)" by (cases "repr_search a (ilog10 a) 1")
  then have "0 \<le> n" using repr_search_nonneg [OF a, of "ilog10 a" 1] by simp
  then have "list_all is_digit (dec_digits (strip_zeros n))"
    by (intro dec_digits_digits strip_zeros_nonneg)
  then have "list_all repr_char (dec_digits (strip_zeros n))" by (rule digits_repr_chars)
  then show ?thesis unfolding repr_pos_def r by (simp add: layout_chars)
qed

lemma repr_literals:
  "list_all repr_char (ustr ''nan'')" "list_all repr_char (ustr ''inf'')"
  "list_all repr_char (ustr ''-inf'')" "list_all repr_char (ustr ''-0.0'')"
  "list_all repr_char (ustr ''0.0'')"
  by (simp_all add: repr_char_def ustr_def is_digit_def)

lemma py_repr_float_chars: "list_all repr_char (py_repr_float f)"
proof (cases f)
  case (Num x)
  consider "x = 0" | "0 < x" | "x < 0" by linarith
  then show ?thesis
  proof cases
    case 1 then show ?thesis using Num by (simp add: repr_literals)
  next
    case 2 then show ?thesis using Num repr_pos_chars [of x] by simp
  next
    case 3 then show ?thesis using Num repr_pos_chars [of "- x"] by (simp add: repr_char_simps)
  qed
qed (simp_all add: repr_literals)

lemma py_str_int_digits: "0 \<le> n \<Longrightarrow> list_all is_digit (py_str_int n)"
  by (simp add: py_str_int_def dec_digits_digits)

lemma left_constants:
  "left_center = Inr (Num 36)" "py_repr_float (Num 36) = ustr ''36.0''"
  "py_str_int left_width = ustr ''72''" "float_of_int left_width = Inr (Num 72)"
  "repr_pos 36 = ustr ''36.0''"
  by code_simp+

lemma right_center_eq:
  assumes "int (length t) < 2 ^ 63"
  shows "right_center t = Inr (right_center_float t)"
proof -
  have lo: "60 \<le> right_width t" by (simp add: right_width_def)
  have "right_width t < 2 ^ 67" using assms by (simp add: right_width_def)
  then have "(of_int (right_width t) :: rat) < 2 ^ 67"
    by (metis of_int_less_iff of_int_numeral of_int_power)
  moreover have "(2::rat) ^ 67 \<le> 2 ^ 1023" by simp
  ultimately have lt: "(of_int (right_width t) :: rat) < 2 ^ 1023" by (rule less_le_trans)
  have r60: "(60::rat) \<le> of_int (right_width t)" using lo by (metis of_int_le_iff of_int_numeral)
  then have "(of_int (right_width t) :: rat) / 2 \<le> of_int (right_width t)" by simp
  then have hi: "(of_int (right_width t) :: rat) / 2 < 2 ^ 1023" using lt by (rule le_less_trans)
  have "1 \<le> (of_int (right_width t) :: rat) / 2" using r60 by simp
  with hi obtain y where y: "fl64 (of_int (right_width t) / 2) = Num y" using fl64_pos by blast
  have nz: "right_width t \<noteq> 0" using lo by simp
  show ?thesis
    by (simp add: right_center_def int_truediv_def nz y int_add_float_def left_constants
        right_center_float_def)
qed

lemma render_badge_eq:
  assumes "int (length t) < 2 ^ 63"
  shows "render_badge t = Inr (markup (py_str_int (width t)) (ustr ''72'')
     (py_str_int (right_width t)) (ustr ''36.0'') (py_repr_float (right_center_float t)) (escape t))"
  by (simp add: render_badge_def left_constants right_center_eq [OF assms] format_template)

section \<open>The rounding error of the float operations\<close>


















section \<open>Properties of the fetcher\<close>

text \<open>
  C4. When the request raises (a connection error, a timeout), when the status is not
  a 2xx status, when the body does not decode, and when the decoded payload is not a
  non-empty list, \<open>fetch_stats\<close> returns \<open>None\<close>; it returns, that is, it raises
  nothing.
\<close>

theorem fetch_stats_absent:
  assumes "net (scoreboard_url username) = outcome"
    and "(\<exists>e. outcome = Inl e)
       \<or> (\<exists>res. outcome = Inr res \<and> (status_code res < 200 \<or> 299 < status_code res))
       \<or> (\<exists>res e. outcome = Inr res \<and> json res = Inl e)
       \<or> (\<exists>res data. outcome = Inr res \<and> json res = Inr data
             \<and> (\<forall>items. data = PList items \<longrightarrow> items = []))"
  shows "fetch_stats net username = Inr None"
  using assms by (auto simp: fetch_stats_url split: sum.splits pyval.splits)

theorem fetch_stats_absent_witness:
  "fetch_stats (\<lambda>url. Inl RequestException) (ustr ''Luke3512'') = Inr None
   \<and> fetch_stats (\<lambda>url. Inr \<lparr>status_code = 404,
         json = Inr (PList [PDict [(ustr ''wpm'', PInt 120)]])\<rparr>) (ustr ''Luke3512'') = Inr None
   \<and> fetch_stats (\<lambda>url. Inr \<lparr>status_code = 200, json = Inl JSONDecodeError\<rparr>)
         (ustr ''Luke3512'') = Inr None
   \<and> fetch_stats (serve (PDict [(ustr ''wpm'', PInt 120)])) (ustr ''Luke3512'') = Inr None
   \<and> fetch_stats (serve (PList [])) (ustr ''Luke3512'') = Inr None"
  using fetch_stats_absent [of "\<lambda>url. Inl RequestException" "ustr ''Luke3512''"
       "Inl RequestException"]
    fetch_stats_absent [of "\<lambda>url. Inr \<lparr>status_code = 404,
         json = Inr (PList [PDict [(ustr ''wpm'', PInt 120)]])\<rparr>" "ustr ''Luke3512''"
       "Inr \<lparr>status_code = 404, json = Inr (PList [PDict [(ustr ''wpm'', PInt 120)]])\<rparr>"]
    fetch_stats_absent [of "\<lambda>url. Inr \<lparr>status_code = 200, json = Inl JSONDecodeError\<rparr>"
       "ustr ''Luke3512''" "Inr \<lparr>status_code = 200, json = Inl JSONDecodeError\<rparr>"]
    fetch_stats_absent [of "serve (PDict [(ustr ''wpm'', PInt 120)])" "ustr ''Luke3512''"
       "Inr \<lparr>status_code = 200, json = Inr (PDict [(ustr ''wpm'', PInt 120)])\<rparr>"]
    fetch_stats_absent [of "serve (PList [])" "ustr ''Luke3512''"
       "Inr \<lparr>status_code = 200, json = Inr (PList [])\<rparr>"]
  by (simp add: serve_def)

text \<open>
  C9. Only the status code 200 counts as success: for any other code, 201 and 204
  included, \<open>fetch_stats\<close> returns \<open>None\<close> whatever the body is (the body is not
  looked at), while a 200 response with a non-empty list does not give \<open>None\<close>.
\<close>

theorem fetch_stats_only_200:
  assumes "net (scoreboard_url username) = Inr res"
  shows "(status_code res \<noteq> 200 \<longrightarrow> fetch_stats net username = Inr None)
     \<and> (status_code res = 200 \<and> json res = Inr (PList items) \<and> items \<noteq> []
          \<and> int (length items) < 2 ^ 63 \<longrightarrow> fetch_stats net username \<noteq> Inr None)"
  using assms fetch_stats_200 [of net username res items] by (auto simp: fetch_stats_url)

theorem fetch_stats_only_200_witness:
  "fetch_stats (\<lambda>url. Inr \<lparr>status_code = 201,
       json = Inr (PList [PDict [(ustr ''wpm'', PInt 120)]])\<rparr>) (ustr ''Luke3512'') = Inr None
   \<and> fetch_stats (\<lambda>url. Inr \<lparr>status_code = 204,
       json = Inr (PList [PDict [(ustr ''wpm'', PInt 120)]])\<rparr>) (ustr ''Luke3512'') = Inr None
   \<and> fetch_stats (\<lambda>url. Inr \<lparr>status_code = 200,
       json = Inr (PList [PDict [(ustr ''wpm'', PInt 120)]])\<rparr>) (ustr ''Luke3512'') \<noteq> Inr None"
  using fetch_stats_only_200 [of "\<lambda>url. Inr \<lparr>status_code = 201,
         json = Inr (PList [PDict [(ustr ''wpm'', PInt 120)]])\<rparr>" "ustr ''Luke3512''"
       "\<lparr>status_code = 201, json = Inr (PList [PDict [(ustr ''wpm'', PInt 120)]])\<rparr>" "[]"]
    fetch_stats_only_200 [of "\<lambda>url. Inr \<lparr>status_code = 204,
         json = Inr (PList [PDict [(ustr ''wpm'', PInt 120)]])\<rparr>" "ustr ''Luke3512''"
       "\<lparr>status_code = 204, json = Inr (PList [PDict [(ustr ''wpm'', PInt 120)]])\<rparr>" "[]"]
    fetch_stats_only_200 [of "\<lambda>url. Inr \<lparr>status_code = 200,
         json = Inr (PList [PDict [(ustr ''wpm'', PInt 120)]])\<rparr>" "ustr ''Luke3512''"
       "\<lparr>status_code = 200, json = Inr (PList [PDict [(ustr ''wpm'', PInt 120)]])\<rparr>"
       "[PDict [(ustr ''wpm'', PInt 120)]]"]
  by simp

text \<open>
  C3. As stated the claim fails for the empty list: \<open>fetch_stats\<close> then returns
  \<open>None\<close>, not statistics that are zero.
\<close>

theorem empty_list_absent:
  "fetch_stats (serve (PList [])) (ustr ''Luke3512'') = Inr None
   \<and> fetch_stats (serve (PList [])) (ustr ''Luke3512'')
       \<noteq> Inr (Some \<lparr>best_wpm = 0, avg_acc = NInt 0\<rparr>)"
  by code_simp

text \<open>
  C3, amended. For a record list none of whose records contributes a speed or an
  accuracy (the record is not a dict, the field is missing, or \<open>float\<close> raises on it),
  the result is \<open>None\<close> when the list is empty and otherwise the statistics with
  \<open>best_wpm = 0\<close> and \<open>avg_acc = 0\<close>.
\<close>

theorem all_invalid_zero:
  assumes "net (scoreboard_url username) = Inr res" and "status_code res = 200"
    and "json res = Inr (PList items)"
    and "\<forall>item\<in>set items. coerced (ustr ''wpm'') item = None \<and> coerced (ustr ''acc'') item = None"
  shows "fetch_stats net username =
     (if items = [] then Inr None else Inr (Some \<lparr>best_wpm = 0, avg_acc = NInt 0\<rparr>))"
proof -
  have "field_values (ustr ''wpm'') items = []" "field_values (ustr ''acc'') items = []"
    using assms(4) by (simp_all add: field_values_Nil)
  then show ?thesis using assms(1-3)
    by (simp add: fetch_stats_url extract_loop_eq aggregate_eq best_of_Nil avg_of_def)
qed

lemma invalid_records:
  "coerced (ustr ''acc'') (PDict [(ustr ''wpm'', PNone), (ustr ''acc'', PStr (ustr ''abc''))]) = None
   \<and> coerced (ustr ''wpm'') (PDict [(ustr ''wpm'', PNone), (ustr ''acc'', PStr (ustr ''abc''))]) = None
   \<and> coerced (ustr ''wpm'') (PInt 3) = None \<and> coerced (ustr ''acc'') (PInt 3) = None
   \<and> coerced (ustr ''wpm'') (PDict []) = None \<and> coerced (ustr ''acc'') (PDict []) = None"
  by code_simp

theorem all_invalid_zero_witness:
  "fetch_stats (serve (PList [PInt 3, PDict [],
       PDict [(ustr ''wpm'', PNone), (ustr ''acc'', PStr (ustr ''abc''))]]))
     (ustr ''Luke3512'') = Inr (Some \<lparr>best_wpm = 0, avg_acc = NInt 0\<rparr>)"
  using all_invalid_zero [of
     "serve (PList [PInt 3, PDict [], PDict [(ustr ''wpm'', PNone), (ustr ''acc'', PStr (ustr ''abc''))]])"
     "ustr ''Luke3512''"
     "\<lparr>status_code = 200, json = Inr (PList [PInt 3, PDict [],
        PDict [(ustr ''wpm'', PNone), (ustr ''acc'', PStr (ustr ''abc''))]])\<rparr>"
     "[PInt 3, PDict [], PDict [(ustr ''wpm'', PNone), (ustr ''acc'', PStr (ustr ''abc''))]]"]
  by (simp add: serve_def invalid_records)

text \<open>
  C2. As stated the claim fails when a coerced speed is not finite. \<open>float("nan")\<close>
  succeeds, \<open>max\<close> keeps a NaN that comes first and drops one that comes later, and
  \<open>round\<close> of NaN raises inside \<open>safe_int\<close>, which then returns 0: the two orders of
  the same two records give 0 and 5.
\<close>

theorem nan_order_matters:
  "fetch_stats (serve (PList [PDict [(ustr ''wpm'', PStr (ustr ''nan''))],
        PDict [(ustr ''wpm'', PInt 5)]])) (ustr ''Luke3512'')
     = Inr (Some \<lparr>best_wpm = 0, avg_acc = NInt 0\<rparr>)
   \<and> fetch_stats (serve (PList [PDict [(ustr ''wpm'', PInt 5)],
        PDict [(ustr ''wpm'', PStr (ustr ''nan''))]])) (ustr ''Luke3512'')
     = Inr (Some \<lparr>best_wpm = 5, avg_acc = NInt 0\<rparr>)"
  by code_simp

text \<open>
  C2, amended. For a record list (of at most \<open>2\<^sup>6\<^sup>3 - 1\<close> records, the longest list
  Python has) with at least one coerced speed, all coerced speeds finite, \<open>best_wpm\<close>
  is the maximum of the coerced speeds rounded to the nearest integer (a tie to the
  even one), and every permutation of the list gives the same \<open>best_wpm\<close>.
\<close>

theorem best_wpm_rounded_max:
  assumes "net (scoreboard_url username) = Inr \<lparr>status_code = 200, json = Inr (PList items)\<rparr>"
    and "net' (scoreboard_url username) = Inr \<lparr>status_code = 200, json = Inr (PList items')\<rparr>"
    and "mset items' = mset items"
    and "int (length items) < 2 ^ 63"
    and "field_values (ustr ''wpm'') items \<noteq> []"
    and "\<forall>f\<in>set (field_values (ustr ''wpm'') items). is_finite f"
  shows "\<exists>st st'. fetch_stats net username = Inr (Some st)
     \<and> best_wpm st = round_half_even (Max (fval ` set (field_values (ustr ''wpm'') items)))
     \<and> fetch_stats net' username = Inr (Some st')
     \<and> best_wpm st' = best_wpm st"
proof -
  have s: "set items' = set items" using assms(3) by (rule mset_eq_setD)
  have l: "length items' = length items" using assms(3) by (rule mset_eq_length)
  have sv: "set (field_values (ustr ''wpm'') items') = set (field_values (ustr ''wpm'') items)"
    by (simp add: set_field_values s)
  then have ne: "field_values (ustr ''wpm'') items' \<noteq> []"
    using assms(5) by (metis set_empty)
  have i: "items \<noteq> []" "items' \<noteq> []"
    using assms(5) ne by (auto simp: field_values_def List.map_filter_simps)
  have b: "best_of (field_values (ustr ''wpm'') items)
      = round_half_even (Max (fval ` set (field_values (ustr ''wpm'') items)))"
    using assms(5,6) by (rule best_of_finite)
  have b': "best_of (field_values (ustr ''wpm'') items')
      = round_half_even (Max (fval ` set (field_values (ustr ''wpm'') items)))"
    using best_of_finite [OF ne] assms(6) sv by simp
  show ?thesis
    using fetch_stats_200 [of net username "\<lparr>status_code = 200, json = Inr (PList items)\<rparr>" items]
      fetch_stats_200 [of net' username "\<lparr>status_code = 200, json = Inr (PList items')\<rparr>" items']
      assms(1,2,4) i l b b' by simp
qed

lemma two_speeds:
  "field_values (ustr ''wpm'') [PDict [(ustr ''wpm'', PFloat (Num (241 / 2)))], PInt 3,
      PDict [(ustr ''wpm'', PInt 110)]] = [Num (241 / 2), Num 110]
   \<and> round_half_even (241 / 2) = 120"
  by code_simp

theorem best_wpm_rounded_max_witness:
  "\<exists>st st'. fetch_stats (serve (PList [PDict [(ustr ''wpm'', PFloat (Num (241 / 2)))], PInt 3,
          PDict [(ustr ''wpm'', PInt 110)]])) (ustr ''Luke3512'') = Inr (Some st)
     \<and> best_wpm st = 120
     \<and> fetch_stats (serve (PList [PDict [(ustr ''wpm'', PInt 110)], PInt 3,
          PDict [(ustr ''wpm'', PFloat (Num (241 / 2)))]])) (ustr ''Luke3512'') = Inr (Some st')
     \<and> best_wpm st' = best_wpm st"
  using best_wpm_rounded_max [of
      "serve (PList [PDict [(ustr ''wpm'', PFloat (Num (241 / 2)))], PInt 3, PDict [(ustr ''wpm'', PInt 110)]])"
      "ustr ''Luke3512''"
      "[PDict [(ustr ''wpm'', PFloat (Num (241 / 2)))], PInt 3, PDict [(ustr ''wpm'', PInt 110)]]"
      "serve (PList [PDict [(ustr ''wpm'', PInt 110)], PInt 3, PDict [(ustr ''wpm'', PFloat (Num (241 / 2)))]])"
      "[PDict [(ustr ''wpm'', PInt 110)], PInt 3, PDict [(ustr ''wpm'', PFloat (Num (241 / 2)))]]"]
  by (simp add: serve_def two_speeds)





section \<open>The average accuracy\<close>














lemma fl64_961: "fl64 (961 / 10) \<noteq> NegZero"
  by code_simp



section \<open>The display string\<close>

lemma value_text_Some: "value_text (Some d) \<noteq> ustr ''no data''"
proof
  assume "value_text (Some d) = ustr ''no data''"
  then have "last (value_text (Some d)) = last (ustr ''no data'')" by simp
  then show False by (simp add: value_text_def ustr_def)
qed

lemma no_data_iff_absent:
  "main_label net u = Inr (ustr ''no data'') \<longleftrightarrow> fetch_stats net u = Inr None"
proof (cases "fetch_stats net u")
  case (Inl e)
  then show ?thesis by (simp add: main_label_def)
next
  case (Inr r)
  then show ?thesis using value_text_Some
    by (cases r) (auto simp: main_label_def value_text_def)
qed

lemma example_label:
  "main_label (serve (PList
      [PDict [(ustr ''wpm'', PFloat (fl64 (1204 / 10))), (ustr ''acc'', PFloat (fl64 (972 / 10)))],
       PDict [(ustr ''wpm'', PInt 110), (ustr ''acc'', PInt 95)]])) (ustr ''Luke3512'')
   = Inr (ustr ''120 WPM '' @ [194, 183] @ ustr '' 96.1%'')"
  by code_simp

text \<open>
  C1. The claim's separator is the middle dot U+00B7 alone; the f-string of the source
  holds U+00C2 U+00B7 (a middle dot encoded twice). For the payload
  \<open>[{"wpm": 120.4, "acc": 97.2}, {"wpm": 110, "acc": 95}]\<close> (the decoder reads 120.4
  and 97.2 as the nearest floats) the display string is \<open>120 WPM \<close>, U+00C2, U+00B7,
  \<open> 96.1%\<close>: 16 code points, not the 15 of the claimed label. No statistics give a
  label with the claimed separator. The rest of the claim holds: the label is
  \<open>"no data"\<close> exactly when \<open>fetch_stats\<close> returns \<open>None\<close>.
\<close>

theorem label_separator_encoded_twice:
  "main_label (serve (PList
      [PDict [(ustr ''wpm'', PFloat (fl64 (1204 / 10))), (ustr ''acc'', PFloat (fl64 (972 / 10)))],
       PDict [(ustr ''wpm'', PInt 110), (ustr ''acc'', PInt 95)]])) (ustr ''Luke3512'')
     = Inr (ustr ''120 WPM '' @ [194, 183] @ ustr '' 96.1%'')
   \<and> main_label (serve (PList
      [PDict [(ustr ''wpm'', PFloat (fl64 (1204 / 10))), (ustr ''acc'', PFloat (fl64 (972 / 10)))],
       PDict [(ustr ''wpm'', PInt 110), (ustr ''acc'', PInt 95)]])) (ustr ''Luke3512'')
     \<noteq> Inr (ustr ''120 WPM '' @ [183] @ ustr '' 96.1%'')
   \<and> value_text (Some d) \<noteq> py_str_int (best_wpm d) @ ustr '' WPM '' @ [183] @ ustr '' ''
         @ py_str (avg_acc d) @ ustr ''%''
   \<and> (main_label net u = Inr (ustr ''no data'') \<longleftrightarrow> fetch_stats net u = Inr None)"
  using example_label no_data_iff_absent [of net u]
  by (simp add: value_text_def ustr_def)

section \<open>Properties of the renderer\<close>

text \<open>
  C5. The width of the right segment is \<open>max(60, 7 * len(text) + 20)\<close>: it does not
  decrease when the text gets longer, it is the floor value 60 for a text of at most
  5 characters, and the total width is the fixed left width 72 plus the right width.
\<close>

theorem right_width_spec:
  "right_width t = max 60 (7 * int (length t) + 20)
   \<and> width t = 72 + right_width t
   \<and> (length t \<le> 5 \<longrightarrow> right_width t = 60)
   \<and> (length s \<le> length t \<longrightarrow> right_width s \<le> right_width t)"
  by (auto simp: right_width_def width_def left_width_def)

theorem right_width_spec_witness:
  "right_width (ustr ''abc'') = 60 \<and> width (ustr ''abc'') = 132
   \<and> right_width (ustr ''no data'') = 69
   \<and> right_width (ustr ''abc'') \<le> right_width (ustr ''no data'')"
  using right_width_spec [of "ustr ''abc''" "ustr ''abc''"]
    right_width_spec [of "ustr ''no data''" "ustr ''abc''"]
  by (simp add: ustr_def)

text \<open>
  C7. For every text (of fewer than \<open>2\<^sup>6\<^sup>3\<close> characters, as every Python string is)
  \<open>render_badge\<close> returns markup, and the markup is the template filled with values
  computed from the text alone: the widths \<open>72 + rw\<close> and \<open>rw\<close> for
  \<open>rw = max(60, 7 * len(text) + 20)\<close>, the centres \<open>36.0\<close> and \<open>72 + rw / 2\<close>, and the
  escaped text. Two calls with the same text therefore both return, and return the
  same markup, code point for code point.
\<close>

theorem render_badge_deterministic:
  assumes "int (length t1) < 2 ^ 63" and "t1 = t2"
  shows "\<exists>m. render_badge t1 = Inr m \<and> render_badge t2 = Inr m
     \<and> m = markup (py_str_int (72 + max 60 (7 * int (length t1) + 20))) (ustr ''72'')
           (py_str_int (max 60 (7 * int (length t1) + 20))) (ustr ''36.0'')
           (py_repr_float (fadd (Num 72) (fl64 (of_int (max 60 (7 * int (length t1) + 20)) / 2))))
           (escape t1)"
  using assms render_badge_eq [of t1]
  by (simp add: width_def left_width_def right_width_def right_center_float_def)

lemma no_data_values:
  "py_str_int 141 = ustr ''141'' \<and> py_str_int 69 = ustr ''69''
   \<and> py_repr_float (fadd (Num 72) (fl64 (69 / 2))) = ustr ''106.5''
   \<and> escape (ustr ''no data'') = ustr ''no data''"
  by code_simp

theorem render_badge_deterministic_witness:
  "render_badge (ustr ''no data'') = Inr (markup (ustr ''141'') (ustr ''72'') (ustr ''69'')
     (ustr ''36.0'') (ustr ''106.5'') (ustr ''no data''))"
  using render_badge_deterministic [of "ustr ''no data''" "ustr ''no data''"] no_data_values
  by (simp add: ustr_def)

end
